theory Spec2Isabelle
  imports Main
begin

section \<open>The remote cloud API as seen by openstack_control.py\<close>

text \<open>
  The script talks to nova and glance, pings an address and sleeps. Every such
  interaction is recorded as an event of a trace, and the answer of the outside world is
  read from an oracle: the answer to the status query number \<open>i\<close> of a run, the exit
  code of the probe number \<open>j\<close>, the answer to any other call by the length of the trace
  at which it is issued. Any sequence of answers is possible, so a statement proved for
  every oracle holds for every behaviour of the remote side.
\<close>

datatype exn = TypeError | IndexError | NotFound | CalledProcessError | OtherError string

datatype event =
    ServersList string
  | ServersCreate string string string string string
  | ServerDelete string
  | ServerStop string
  | ServerStart string
  | NetworksFind string
  | ImagesFind string
  | FlavorsFind string
  | GlanceCreate string
  | GlanceUpload string string
  | GlanceDelete string
  | OpenFile string
  | Ping string
  | Sleep nat
  | Print string

type_synonym trace = "event list"

text \<open>
  What \<open>server.to_dict()\<close> carries and the script reads: \<open>id\<close>, \<open>status\<close>,
  \<open>OS-EXT-STS:power_state\<close> and \<open>addresses\<close>, the latter a dictionary from a network
  label to the list of its addresses, kept in the order \<open>keys()\<close> enumerates it.
  The dictionary is taken to carry these four keys, and every address its \<open>addr\<close>.
\<close>

record server =
  server_id :: string
  server_status :: string
  server_power_state :: int
  server_addresses :: "(string \<times> string list) list"

record remote =
  servers_list :: "nat \<Rightarrow> string \<Rightarrow> exn + server list"
  find_id :: "nat \<Rightarrow> event \<Rightarrow> exn + string"
  request :: "nat \<Rightarrow> event \<Rightarrow> exn option"
  ping_exit :: "nat \<Rightarrow> string \<Rightarrow> exn + int"

text \<open>The calls that change the remote state.\<close>

fun is_mutation :: "event \<Rightarrow> bool" where
  "is_mutation (ServersCreate n i f k nw) = True"
| "is_mutation (ServerDelete s) = True"
| "is_mutation (ServerStop s) = True"
| "is_mutation (ServerStart s) = True"
| "is_mutation (GlanceCreate n) = True"
| "is_mutation (GlanceUpload i f) = True"
| "is_mutation (GlanceDelete i) = True"
| "is_mutation e = False"

fun is_sleep :: "event \<Rightarrow> bool" where
  "is_sleep (Sleep d) = True"
| "is_sleep e = False"

fun is_query :: "event \<Rightarrow> bool" where
  "is_query (ServersList n) = True"
| "is_query e = False"

fun is_ping :: "event \<Rightarrow> bool" where
  "is_ping (Ping ip) = True"
| "is_ping e = False"

text \<open>How many status queries, and how many probes, a trace holds.\<close>

definition nq :: "trace \<Rightarrow> nat" where
  "nq w = length (filter is_query w)"

definition np :: "trace \<Rightarrow> nat" where
  "np w = length (filter is_ping w)"

text \<open>\<open>nova.*.find(...)\<close> and \<open>glance.images.create(...)\<close>: an identifier or a failure.\<close>

definition call_find :: "remote \<Rightarrow> event \<Rightarrow> trace \<Rightarrow> (exn + string) \<times> trace" where
  "call_find env ev w = (find_id env (length w) ev, w @ [ev])"

text \<open>A call whose result the script does not use: it returns or it raises.\<close>

definition call_request :: "remote \<Rightarrow> event \<Rightarrow> trace \<Rightarrow> (exn + unit) \<times> trace" where
  "call_request env ev w =
     (case request env (length w) ev of None \<Rightarrow> Inr () | Some e \<Rightarrow> Inl e, w @ [ev])"

text \<open>\<open>time.sleep(d)\<close>.\<close>

definition sleep :: "nat \<Rightarrow> trace \<Rightarrow> trace" where
  "sleep d w = w @ [Sleep d]"

text \<open>
  \<open>subprocess.check_call(['ping', '-c', '1', ip])\<close>: returns 0 when the process exits
  with 0, raises CalledProcessError on any other exit code, and passes on the failure
  to start the process.
\<close>

definition check_call_ping :: "remote \<Rightarrow> string \<Rightarrow> trace \<Rightarrow> (exn + int) \<times> trace" where
  "check_call_ping env ip w =
     (case ping_exit env (np w) ip of
        Inl e \<Rightarrow> Inl e
      | Inr rc \<Rightarrow> if rc = 0 then Inr 0 else Inl CalledProcessError,
      w @ [Ping ip])"

section \<open>vm_status\<close>

record status_dict =
  sd_server :: server
  sd_id :: string
  sd_name :: string
  sd_status :: string
  sd_power_state :: int
  sd_network :: "string \<times> string"

text \<open>
  The \<open>try ... except IndexError\<close> around \<open>networks.keys()[0]\<close> and
  \<open>networks[network_id][0]['addr']\<close>: either subscript on an empty list gives the pair
  of empty strings.
\<close>

definition first_address :: "(string \<times> string list) list \<Rightarrow> string \<times> string" where
  "first_address networks =
     (case networks of
        [] \<Rightarrow> ('''', '''')
      | (network_id, addrs) # _ \<Rightarrow>
          (case addrs of [] \<Rightarrow> ('''', '''') | ip # _ \<Rightarrow> (network_id, ip)))"

text \<open>\<open>vm_status(name)\<close>: \<open>Inr None\<close> is the bare \<open>return\<close> of the source.\<close>

definition vm_status :: "remote \<Rightarrow> string \<Rightarrow> trace \<Rightarrow> (exn + status_dict option) \<times> trace" where
  "vm_status env name w =
     (case servers_list env (nq w) name of
        Inl e \<Rightarrow> Inl e
      | Inr [] \<Rightarrow> Inr None
      | Inr (srv # _) \<Rightarrow>
          Inr (Some \<lparr> sd_server = srv, sd_id = server_id srv, sd_name = name,
                      sd_status = server_status srv,
                      sd_power_state = server_power_state srv,
                      sd_network = first_address (server_addresses srv) \<rparr>),
      w @ [ServersList name])"

text \<open>
  \<open>vm_status(name)[key]\<close>: subscripting the value of a bare \<open>return\<close> raises TypeError.
\<close>

definition subscript :: "(exn + status_dict option) \<Rightarrow> (status_dict \<Rightarrow> 'a) \<Rightarrow> exn + 'a" where
  "subscript r field =
     (case r of Inl e \<Rightarrow> Inl e | Inr None \<Rightarrow> Inl TypeError | Inr (Some d) \<Rightarrow> Inr (field d))"

section \<open>The lifecycle operations\<close>

text \<open>
  How a call that may loop ends: it returns, it raises, or it is still polling when the
  fuel given to its loop is used up. A loop of the source has no bound; the fuel only
  bounds how far the model is unfolded.
\<close>

datatype outcome = Returned | Raised exn | Polling

text \<open>
  Lines 61 to 67: \<open>while status != 'ACTIVE'\<close>, with \<open>except TypeError: continue\<close>
  jumping over \<open>time.sleep(1)\<close>.
\<close>

fun status_wait :: "remote \<Rightarrow> string \<Rightarrow> nat \<Rightarrow> string \<Rightarrow> trace \<Rightarrow> outcome \<times> trace" where
  "status_wait env name 0 status w =
     (if status \<noteq> ''ACTIVE'' then (Polling, w) else (Returned, w))"
| "status_wait env name (Suc n) status w =
     (if status \<noteq> ''ACTIVE'' then
        (case vm_status env name w of (r, w1) \<Rightarrow>
           (case subscript r sd_status of
              Inl e \<Rightarrow> if e = TypeError then status_wait env name n status w1
                       else (Raised e, w1)
            | Inr s \<Rightarrow> status_wait env name n s (sleep 1 w1)))
      else (Returned, w))"

text \<open>
  Lines 70 to 81: \<open>while ping_response is False\<close>, with a bare \<open>except: continue\<close>
  jumping over \<open>time.sleep(2)\<close>. Opening \<open>os.devnull\<close> is taken to succeed.
\<close>

fun ping_wait :: "remote \<Rightarrow> string \<Rightarrow> nat \<Rightarrow> bool \<Rightarrow> trace \<Rightarrow> outcome \<times> trace" where
  "ping_wait env name 0 ping_response w =
     (if ping_response = False then (Polling, w) else (Returned, w))"
| "ping_wait env name (Suc n) ping_response w =
     (if ping_response = False then
        (case vm_status env name w of (r, w1) \<Rightarrow>
           (case subscript r sd_network of
              Inl e \<Rightarrow> ping_wait env name n ping_response w1
            | Inr nw \<Rightarrow>
                (case check_call_ping env (snd nw) w1 of
                   (Inl e, w2) \<Rightarrow> ping_wait env name n ping_response w2
                 | (Inr response, w2) \<Rightarrow>
                     ping_wait env name n (if response = 0 then True else ping_response)
                       (sleep 2 w2))))
      else (Returned, w))"

definition vm_create ::
  "remote \<Rightarrow> nat \<Rightarrow> string \<Rightarrow> string \<Rightarrow> string \<Rightarrow> string \<Rightarrow> string \<Rightarrow> trace \<Rightarrow> outcome \<times> trace" where
  "vm_create env fuel name image_name key_pair flavor network w =
     (case call_find env (NetworksFind network) w of
        (Inl e, w1) \<Rightarrow> (Raised e, w1)
      | (Inr net_id, w1) \<Rightarrow>
     (case call_find env (ImagesFind image_name) w1 of
        (Inl e, w2) \<Rightarrow> (Raised e, w2)
      | (Inr image_id, w2) \<Rightarrow>
     (case call_find env (FlavorsFind flavor) w2 of
        (Inl e, w3) \<Rightarrow> (Raised e, w3)
      | (Inr flavor_id, w3) \<Rightarrow>
     (case call_request env (ServersCreate name image_id flavor_id net_id key_pair) w3 of
        (Inl e, w4) \<Rightarrow> (Raised e, w4)
      | (Inr _, w4) \<Rightarrow>
     (case status_wait env name fuel [] w4 of
        (Returned, w5) \<Rightarrow> ping_wait env name fuel False w5
      | (r, w5) \<Rightarrow> (r, w5))))))"

text \<open>Lines 96 to 100: \<open>while True\<close> without a sleep; TypeError is the way out.\<close>

fun delete_wait :: "remote \<Rightarrow> string \<Rightarrow> nat \<Rightarrow> trace \<Rightarrow> outcome \<times> trace" where
  "delete_wait env name 0 w = (Polling, w)"
| "delete_wait env name (Suc n) w =
     (case vm_status env name w of (r, w1) \<Rightarrow>
        (case subscript r sd_server of
           Inl e \<Rightarrow> if e = TypeError then (Returned, w1) else (Raised e, w1)
         | Inr srv \<Rightarrow> delete_wait env name n w1))"

definition vm_delete :: "remote \<Rightarrow> nat \<Rightarrow> string \<Rightarrow> trace \<Rightarrow> outcome \<times> trace" where
  "vm_delete env fuel name w =
     (case vm_status env name w of (r, w1) \<Rightarrow>
        (case subscript r sd_server of
           Inl e \<Rightarrow> if e = TypeError then delete_wait env name fuel w1 else (Raised e, w1)
         | Inr srv \<Rightarrow>
             (case call_request env (ServerDelete (server_id srv)) w1 of
                (Inl e, w2) \<Rightarrow>
                  if e = TypeError then delete_wait env name fuel w2 else (Raised e, w2)
              | (Inr _, w2) \<Rightarrow> delete_wait env name fuel w2)))"

text \<open>Lines 161 and 162: \<open>while vm_status(name)['power_state'] == 1: time.sleep(1)\<close>.\<close>

fun stop_wait :: "remote \<Rightarrow> string \<Rightarrow> nat \<Rightarrow> trace \<Rightarrow> outcome \<times> trace" where
  "stop_wait env name 0 w = (Polling, w)"
| "stop_wait env name (Suc n) w =
     (case vm_status env name w of (r, w1) \<Rightarrow>
        (case subscript r sd_power_state of
           Inl e \<Rightarrow> (Raised e, w1)
         | Inr p \<Rightarrow> if p = 1 then stop_wait env name n (sleep 1 w1) else (Returned, w1)))"

definition vm_stop :: "remote \<Rightarrow> nat \<Rightarrow> string \<Rightarrow> trace \<Rightarrow> outcome \<times> trace" where
  "vm_stop env fuel name w =
     (case vm_status env name w of (vm_info, w1) \<Rightarrow>
        (case subscript vm_info sd_power_state of
           Inl e \<Rightarrow> (Raised e, w1)
         | Inr p \<Rightarrow>
             if p = 1 then
               (case subscript vm_info sd_server of
                  Inl e \<Rightarrow> (Raised e, w1)
                | Inr srv \<Rightarrow>
                    (case call_request env (ServerStop (server_id srv)) w1 of
                       (Inl e, w2) \<Rightarrow> (Raised e, w2)
                     | (Inr _, w2) \<Rightarrow> stop_wait env name fuel w2))
             else (Returned, w1)))"

text \<open>Lines 173 and 174: \<open>while vm_status(name)['power_state'] != 1: time.sleep(1)\<close>.\<close>

fun start_wait :: "remote \<Rightarrow> string \<Rightarrow> nat \<Rightarrow> trace \<Rightarrow> outcome \<times> trace" where
  "start_wait env name 0 w = (Polling, w)"
| "start_wait env name (Suc n) w =
     (case vm_status env name w of (r, w1) \<Rightarrow>
        (case subscript r sd_power_state of
           Inl e \<Rightarrow> (Raised e, w1)
         | Inr p \<Rightarrow> if p \<noteq> 1 then start_wait env name n (sleep 1 w1) else (Returned, w1)))"

definition vm_start :: "remote \<Rightarrow> nat \<Rightarrow> string \<Rightarrow> trace \<Rightarrow> outcome \<times> trace" where
  "vm_start env fuel name w =
     (case vm_status env name w of (vm_info, w1) \<Rightarrow>
        (case subscript vm_info sd_power_state of
           Inl e \<Rightarrow> (Raised e, w1)
         | Inr p \<Rightarrow>
             if p \<noteq> 1 then
               (case subscript vm_info sd_server of
                  Inl e \<Rightarrow> (Raised e, w1)
                | Inr srv \<Rightarrow>
                    (case call_request env (ServerStart (server_id srv)) w1 of
                       (Inl e, w2) \<Rightarrow> (Raised e, w2)
                     | (Inr _, w2) \<Rightarrow> start_wait env name fuel w2))
             else (Returned, w1)))"

section \<open>Image operations\<close>

definition image_delete :: "remote \<Rightarrow> string \<Rightarrow> trace \<Rightarrow> (exn + unit) \<times> trace" where
  "image_delete env name w =
     (case call_find env (ImagesFind name) w of
        (Inl e, w1) \<Rightarrow> (Inl e, w1)
      | (Inr image_id, w1) \<Rightarrow> call_request env (GlanceDelete image_id) w1)"

text \<open>The body of \<open>image_upload\<close> after the pre-delete: lines 190 to 192.\<close>

definition upload_new :: "remote \<Rightarrow> string \<Rightarrow> string \<Rightarrow> trace \<Rightarrow> (exn + unit) \<times> trace" where
  "upload_new env name imagefile w =
     (case call_request env (OpenFile imagefile) w of
        (Inl e, w1) \<Rightarrow> (Inl e, w1)
      | (Inr _, w1) \<Rightarrow>
          (case call_find env (GlanceCreate name) w1 of
             (Inl e, w2) \<Rightarrow> (Inl e, w2)
           | (Inr image_id, w2) \<Rightarrow> call_request env (GlanceUpload image_id imagefile) w2))"

definition image_upload :: "remote \<Rightarrow> string \<Rightarrow> string \<Rightarrow> trace \<Rightarrow> (exn + unit) \<times> trace" where
  "image_upload env name imagefile w =
     (case image_delete env name w of
        (Inl e, w1) \<Rightarrow> if e = NotFound then upload_new env name imagefile w1 else (Inl e, w1)
      | (Inr _, w1) \<Rightarrow> upload_new env name imagefile w1)"

section \<open>main, invoked with --create\<close>

text \<open>Lines 250 to 253: \<open>vm_create\<close>, then \<open>print vm_status(args.name)['network'][1]\<close>.\<close>

definition main_create ::
  "remote \<Rightarrow> nat \<Rightarrow> string \<Rightarrow> string \<Rightarrow> string \<Rightarrow> string \<Rightarrow> string \<Rightarrow> trace \<Rightarrow> outcome \<times> trace" where
  "main_create env fuel name image_name key_pair flavor network w =
     (case vm_create env fuel name image_name key_pair flavor network w of
        (Returned, w1) \<Rightarrow>
          (case vm_status env name w1 of (r, w2) \<Rightarrow>
             (case subscript r sd_network of
                Inl e \<Rightarrow> (Raised e, w2)
              | Inr nw \<Rightarrow> (Returned, w2 @ [Print (snd nw)])))
      | (r, w1) \<Rightarrow> (r, w1))"

section \<open>What an answer of the remote says\<close>

text \<open>
  The answer to the status query number \<open>i\<close> lists a VM; the probe number \<open>j\<close> to the
  first address of the VM listed by query \<open>i\<close> exits with 0.
\<close>

definition vm_listed :: "remote \<Rightarrow> string \<Rightarrow> nat \<Rightarrow> bool" where
  "vm_listed env name i =
     (case servers_list env i name of Inr (srv # _) \<Rightarrow> True | _ \<Rightarrow> False)"

definition reachable :: "remote \<Rightarrow> string \<Rightarrow> nat \<Rightarrow> nat \<Rightarrow> bool" where
  "reachable env name i j =
     (case servers_list env i name of
        Inr (srv # _) \<Rightarrow> ping_exit env j (snd (first_address (server_addresses srv))) = Inr 0
      | _ \<Rightarrow> False)"

text \<open>
  What the answer to the status query number \<open>i\<close> does to each wait, read off the loop
  bodies: \<open>None\<close> when the loop goes round again, \<open>Some\<close> of the way the wait ends
  otherwise. Create's status wait (lines 62 to 67) goes round on a TypeError, on the
  sentinel and on a status other than ACTIVE; delete's wait (lines 96 to 100) returns on
  a TypeError and on the sentinel; the waits of stop and start (lines 161 and 173) have
  no \<open>try\<close>, so that the sentinel raises TypeError and a failure is passed on.
\<close>

definition status_verdict :: "remote \<Rightarrow> string \<Rightarrow> nat \<Rightarrow> outcome option" where
  "status_verdict env name i =
     (case servers_list env i name of
        Inl e \<Rightarrow> if e = TypeError then None else Some (Raised e)
      | Inr [] \<Rightarrow> None
      | Inr (srv # _) \<Rightarrow> if server_status srv = ''ACTIVE'' then Some Returned else None)"

definition delete_verdict :: "remote \<Rightarrow> string \<Rightarrow> nat \<Rightarrow> outcome option" where
  "delete_verdict env name i =
     (case servers_list env i name of
        Inl e \<Rightarrow> if e = TypeError then Some Returned else Some (Raised e)
      | Inr [] \<Rightarrow> Some Returned
      | Inr (srv # _) \<Rightarrow> None)"

definition stop_verdict :: "remote \<Rightarrow> string \<Rightarrow> nat \<Rightarrow> outcome option" where
  "stop_verdict env name i =
     (case servers_list env i name of
        Inl e \<Rightarrow> Some (Raised e)
      | Inr [] \<Rightarrow> Some (Raised TypeError)
      | Inr (srv # _) \<Rightarrow> if server_power_state srv = 1 then None else Some Returned)"

definition start_verdict :: "remote \<Rightarrow> string \<Rightarrow> nat \<Rightarrow> outcome option" where
  "start_verdict env name i =
     (case servers_list env i name of
        Inl e \<Rightarrow> Some (Raised e)
      | Inr [] \<Rightarrow> Some (Raised TypeError)
      | Inr (srv # _) \<Rightarrow> if server_power_state srv \<noteq> 1 then None else Some Returned)"

text \<open>
  How many probes the reachability wait issues in \<open>j\<close> rounds from query \<open>q\<close> on: one
  for every round whose query lists a VM (lines 73 to 76).
\<close>

fun probes :: "remote \<Rightarrow> string \<Rightarrow> nat \<Rightarrow> nat \<Rightarrow> nat" where
  "probes env name q 0 = 0"
| "probes env name q (Suc j) =
     (if vm_listed env name q then 1 else 0) + probes env name (Suc q) j"

text \<open>
  In a trace, a sleep of \<open>d\<close> seconds lies between any two consecutive status queries;
  \<open>pending\<close> says that a query has been issued with no such sleep since.
\<close>

fun separated :: "nat \<Rightarrow> bool \<Rightarrow> trace \<Rightarrow> bool" where
  "separated d pending [] = True"
| "separated d pending (ServersList n # es) = (\<not> pending \<and> separated d True es)"
| "separated d pending (Sleep d' # es) = separated d (pending \<and> d' \<noteq> d) es"
| "separated d pending (e # es) = separated d pending es"

section \<open>Example remotes\<close>

text \<open>A server with one network attachment, and remotes that answer from a script.\<close>

definition vm_demo :: "string \<Rightarrow> int \<Rightarrow> server" where
  "vm_demo st p = \<lparr> server_id = ''id-1'', server_status = st, server_power_state = p,
                    server_addresses = [(''private'', [''10.0.0.5''])] \<rparr>"

definition scripted :: "(nat \<Rightarrow> exn + server list) \<Rightarrow> (nat \<Rightarrow> int) \<Rightarrow> remote" where
  "scripted listing exits =
     \<lparr> servers_list = (\<lambda>i name. listing i),
       find_id = (\<lambda>t ev. Inr ''id-0''),
       request = (\<lambda>t ev. None),
       ping_exit = (\<lambda>j ip. Inr (exits j)) \<rparr>"

definition no_image :: remote where
  "no_image =
     \<lparr> servers_list = (\<lambda>i name. Inr []),
       find_id = (\<lambda>t ev. case ev of ImagesFind n \<Rightarrow> Inl NotFound | _ \<Rightarrow> Inr ''img-1''),
       request = (\<lambda>t ev. None),
       ping_exit = (\<lambda>j ip. Inr 1) \<rparr>"

definition has_image :: remote where
  "has_image =
     \<lparr> servers_list = (\<lambda>i name. Inr []),
       find_id = (\<lambda>t ev. case ev of ImagesFind n \<Rightarrow> Inr ''img-old'' | _ \<Rightarrow> Inr ''img-new''),
       request = (\<lambda>t ev. None),
       ping_exit = (\<lambda>j ip. Inr 1) \<rparr>"

text \<open>
  The VM is BUILD for three queries and ACTIVE from then on, and the third probe is the
  first to succeed; the VM is listed twice and then gone; every query fails.
\<close>

definition booting :: remote where
  "booting = scripted (\<lambda>i. if i < 3 then Inr [vm_demo ''BUILD'' 0] else Inr [vm_demo ''ACTIVE'' 1])
                      (\<lambda>j. if j < 2 then 1 else 0)"

definition vanishing :: remote where
  "vanishing = scripted (\<lambda>i. if i < 2 then Inr [vm_demo ''ACTIVE'' 1] else Inr []) (\<lambda>j. 0)"

definition refusing :: remote where
  "refusing = scripted (\<lambda>i. Inl (OtherError ''connection refused'')) (\<lambda>j. 0)"

text \<open>
  The VM runs for two queries and is shut off from then on; the VM never changes.
\<close>

definition halting :: remote where
  "halting = scripted (\<lambda>i. if i < 2 then Inr [vm_demo ''ACTIVE'' 1] else Inr [vm_demo ''SHUTOFF'' 4])
                      (\<lambda>j. 0)"

definition steady :: "string \<Rightarrow> int \<Rightarrow> remote" where
  "steady st p = scripted (\<lambda>i. Inr [vm_demo st p]) (\<lambda>j. 0)"

text \<open>
  The first query fails and later ones list the ACTIVE VM; the VM is first not listed,
  then the query raises TypeError, then the VM is listed and the second probe succeeds;
  the VM has another first address from the third query on.
\<close>

definition hiccup :: remote where
  "hiccup = scripted (\<lambda>i. if i < 1 then Inl (OtherError ''timeout'') else Inr [vm_demo ''ACTIVE'' 1])
                     (\<lambda>j. 0)"

definition late :: remote where
  "late = scripted (\<lambda>i. if i < 1 then Inr [] else if i < 2 then Inl TypeError
                        else Inr [vm_demo ''ACTIVE'' 1])
                   (\<lambda>j. if j < 1 then 1 else 0)"

definition vm_moved :: server where
  "vm_moved = \<lparr> server_id = ''id-1'', server_status = ''ACTIVE'', server_power_state = 1,
                server_addresses = [(''private'', [''10.0.0.99''])] \<rparr>"

definition readdress :: remote where
  "readdress = scripted (\<lambda>i. if i < 2 then Inr [vm_demo ''ACTIVE'' 1] else Inr [vm_moved])
                        (\<lambda>j. 0)"

section \<open>Counting queries and probes\<close>

lemma nq_snoc [simp]: "nq (w @ [ServersList n]) = Suc (nq w)" "nq (w @ [Sleep d]) = nq w"
  "nq (w @ [Ping ip]) = nq w" "nq (w @ [ServersList n, Sleep d]) = Suc (nq w)"
  "nq (w @ [ServersList n, Ping ip]) = Suc (nq w)"
  "nq (w @ [ServersList n, Ping ip, Sleep d]) = Suc (nq w)"
  by (simp_all add: nq_def)

lemma np_snoc [simp]: "np (w @ [ServersList n]) = np w" "np (w @ [Sleep d]) = np w"
  "np (w @ [Ping ip]) = Suc (np w)" "np (w @ [ServersList n, Sleep d]) = np w"
  "np (w @ [ServersList n, Ping ip]) = Suc (np w)"
  "np (w @ [ServersList n, Ping ip, Sleep d]) = Suc (np w)"
  by (simp_all add: np_def)

section \<open>Status query and image deletion\<close>

text \<open>
  C6: when the remote API lists no server for the name, \<open>vm_status\<close> returns the absent
  sentinel; it does not raise, and it has issued the one list request.
\<close>

theorem vm_status_absent:
  "servers_list env (nq w) name = Inr [] \<Longrightarrow>
   vm_status env name w = (Inr None, w @ [ServersList name])"
  by (simp add: vm_status_def)

theorem vm_status_absent_witness:
  "servers_list no_image (nq []) ''vm'' = Inr [] \<and>
   vm_status no_image ''vm'' [] = (Inr None, [ServersList ''vm''])"
  using vm_status_absent [of no_image "[]" "''vm''"] by (simp add: no_image_def)

text \<open>
  C8: when the lookup by name finds no image, \<open>image_delete\<close> ends with that not-found
  failure, and the trace holds the lookup only: no deletion request was sent.
\<close>

theorem image_delete_not_found:
  "find_id env (length w) (ImagesFind name) = Inl NotFound \<Longrightarrow>
   image_delete env name w = (Inl NotFound, w @ [ImagesFind name])"
  by (simp add: image_delete_def call_find_def)

theorem image_delete_not_found_witness:
  "find_id no_image (length []) (ImagesFind ''img'') = Inl NotFound \<and>
   image_delete no_image ''img'' [] = (Inl NotFound, [ImagesFind ''img''])"
  using image_delete_not_found [of no_image "[]" "''img''"] by (simp add: no_image_def)

section \<open>Start and stop\<close>

text \<open>
  C3: \<open>vm_start\<close> on a VM whose power state is 1 (running), and \<open>vm_stop\<close> on a VM whose
  power state is not 1, return after the one status query: no mutation, no polling.
\<close>

theorem start_stop_noop:
  "servers_list env (nq w) name = Inr (srv # rest) \<Longrightarrow>
   (server_power_state srv = 1 \<longrightarrow>
      vm_start env fuel name w = (Returned, w @ [ServersList name])) \<and>
   (server_power_state srv \<noteq> 1 \<longrightarrow>
      vm_stop env fuel name w = (Returned, w @ [ServersList name]))"
  by (simp add: vm_start_def vm_stop_def vm_status_def subscript_def)

theorem start_stop_noop_witness:
  "vm_start (scripted (\<lambda>i. Inr [vm_demo ''ACTIVE'' 1]) (\<lambda>j. 0)) 3 ''vm'' [] =
     (Returned, [ServersList ''vm'']) \<and>
   vm_stop (scripted (\<lambda>i. Inr [vm_demo ''SHUTOFF'' 4]) (\<lambda>j. 0)) 3 ''vm'' [] =
     (Returned, [ServersList ''vm''])"
  using start_stop_noop [of "scripted (\<lambda>i. Inr [vm_demo ''ACTIVE'' 1]) (\<lambda>j. 0)" "[]" "''vm''"
      "vm_demo ''ACTIVE'' 1" "[]" 3]
    start_stop_noop [of "scripted (\<lambda>i. Inr [vm_demo ''SHUTOFF'' 4]) (\<lambda>j. 0)" "[]" "''vm''"
      "vm_demo ''SHUTOFF'' 4" "[]" 3]
  by (simp add: scripted_def vm_demo_def nq_def)

section \<open>The absence wait of delete\<close>

lemma delete_wait_no_type_error:
  "fst (delete_wait env name fuel w) \<noteq> Raised TypeError"
  by (induction fuel arbitrary: w) (auto simp: vm_status_def split: sum.splits prod.splits)

lemma delete_wait_only_queries:
  "\<exists>k. snd (delete_wait env name fuel w) = w @ replicate k (ServersList name)"
proof (induction fuel arbitrary: w)
  case 0
  show ?case by (rule exI [of _ 0]) simp
next
  case (Suc n)
  obtain k where k: "snd (delete_wait env name n (w @ [ServersList name])) =
      (w @ [ServersList name]) @ replicate k (ServersList name)"
    using Suc.IH by blast
  show ?case
  proof (cases "subscript (fst (vm_status env name w)) sd_server")
    case (Inl e)
    then show ?thesis
      by (intro exI [of _ 1]) (simp add: vm_status_def split: prod.splits)
  next
    case (Inr srv)
    then show ?thesis using k
      by (intro exI [of _ "Suc k"]) (simp add: vm_status_def split: prod.splits)
  qed
qed

section \<open>Delete\<close>

text \<open>
  C2: when the status query finds no VM, \<open>vm_delete\<close> sends no mutation request,
  whatever happens next; and when the query of its absence wait finds no VM either, it
  returns at once: the trace holds these two queries and nothing else.
\<close>

theorem vm_delete_absent:
  "servers_list env (nq w) name = Inr [] \<Longrightarrow>
   filter is_mutation (drop (length w) (snd (vm_delete env fuel name w))) = [] \<and>
   (servers_list env (Suc (nq w)) name = Inr [] \<longrightarrow>
      vm_delete env (Suc fuel) name w = (Returned, w @ [ServersList name, ServersList name]))"
proof
  assume a: "servers_list env (nq w) name = Inr []"
  then have d: "\<And>f. vm_delete env f name w = delete_wait env name f (w @ [ServersList name])"
    by (simp add: vm_delete_def vm_status_def subscript_def)
  obtain k where "snd (delete_wait env name fuel (w @ [ServersList name])) =
      (w @ [ServersList name]) @ replicate k (ServersList name)"
    using delete_wait_only_queries by blast
  then show "filter is_mutation (drop (length w) (snd (vm_delete env fuel name w))) = []"
    by (simp add: d)
  show "servers_list env (Suc (nq w)) name = Inr [] \<longrightarrow>
      vm_delete env (Suc fuel) name w = (Returned, w @ [ServersList name, ServersList name])"
    by (simp add: d vm_status_def subscript_def)
qed

theorem vm_delete_absent_witness:
  "vm_delete no_image 1 ''vm'' [] = (Returned, [ServersList ''vm'', ServersList ''vm''])
   \<and> filter is_mutation (snd (vm_delete no_image 1 ''vm'' [])) = []"
  using vm_delete_absent [of no_image "[]" "''vm''" 0] vm_delete_absent [of no_image "[]" "''vm''" 1]
  by (simp add: no_image_def)

text \<open>
  C10: when the status query finds no VM, \<open>vm_start\<close> and \<open>vm_stop\<close> end with the
  TypeError of subscripting the sentinel, right after that query: nothing is sent and
  nothing is polled. \<open>vm_delete\<close> never ends with a TypeError.
\<close>

theorem start_stop_absent_raise:
  "servers_list env (nq w) name = Inr [] \<Longrightarrow>
   vm_start env fuel name w = (Raised TypeError, w @ [ServersList name]) \<and>
   vm_stop env fuel name w = (Raised TypeError, w @ [ServersList name]) \<and>
   fst (vm_delete env fuel name w) \<noteq> Raised TypeError"
proof (intro conjI)
  assume a: "servers_list env (nq w) name = Inr []"
  show "vm_start env fuel name w = (Raised TypeError, w @ [ServersList name])"
    using a by (simp add: vm_start_def vm_status_def subscript_def)
  show "vm_stop env fuel name w = (Raised TypeError, w @ [ServersList name])"
    using a by (simp add: vm_stop_def vm_status_def subscript_def)
  show "fst (vm_delete env fuel name w) \<noteq> Raised TypeError"
    using a by (simp add: vm_delete_def vm_status_def subscript_def delete_wait_no_type_error)
qed

theorem start_stop_absent_raise_witness:
  "vm_start no_image 2 ''vm'' [] = (Raised TypeError, [ServersList ''vm'']) \<and>
   vm_stop no_image 2 ''vm'' [] = (Raised TypeError, [ServersList ''vm'']) \<and>
   fst (vm_delete no_image 2 ''vm'' []) \<noteq> Raised TypeError"
  using start_stop_absent_raise [of no_image "[]" "''vm''" 2] by (simp add: no_image_def)

section \<open>Image upload\<close>

text \<open>
  C7: \<open>image_upload\<close> starts with the lookup of the pre-delete. When the lookup fails
  with not-found the failure is swallowed and the upload goes on as it would from there;
  when nothing else fails the trace is lookup, (deletion of the old image,) opening the
  file, creation of the new image, upload of the file to the identifier just created.
\<close>

theorem image_upload_overwrites:
  "take (Suc (length w)) (snd (image_upload env name imagefile w)) = w @ [ImagesFind name] \<and>
   (find_id env (length w) (ImagesFind name) = Inl NotFound \<longrightarrow>
      image_upload env name imagefile w = upload_new env name imagefile (w @ [ImagesFind name])) \<and>
   (find_id env (length w) (ImagesFind name) = Inl NotFound \<and>
    request env (length w + 1) (OpenFile imagefile) = None \<and>
    find_id env (length w + 2) (GlanceCreate name) = Inr new \<and>
    request env (length w + 3) (GlanceUpload new imagefile) = None \<longrightarrow>
      image_upload env name imagefile w =
        (Inr (), w @ [ImagesFind name, OpenFile imagefile, GlanceCreate name,
                      GlanceUpload new imagefile])) \<and>
   (find_id env (length w) (ImagesFind name) = Inr old \<and>
    request env (length w + 1) (GlanceDelete old) = None \<and>
    request env (length w + 2) (OpenFile imagefile) = None \<and>
    find_id env (length w + 3) (GlanceCreate name) = Inr new \<and>
    request env (length w + 4) (GlanceUpload new imagefile) = None \<longrightarrow>
      image_upload env name imagefile w =
        (Inr (), w @ [ImagesFind name, GlanceDelete old, OpenFile imagefile, GlanceCreate name,
                      GlanceUpload new imagefile]))"
proof (intro conjI impI)
  show "take (Suc (length w)) (snd (image_upload env name imagefile w)) = w @ [ImagesFind name]"
    by (simp add: image_upload_def image_delete_def upload_new_def call_find_def
        call_request_def split: sum.splits option.splits)
next
  assume "find_id env (length w) (ImagesFind name) = Inl NotFound"
  then show "image_upload env name imagefile w = upload_new env name imagefile (w @ [ImagesFind name])"
    by (simp add: image_upload_def image_delete_def call_find_def)
next
  assume "find_id env (length w) (ImagesFind name) = Inl NotFound \<and>
    request env (length w + 1) (OpenFile imagefile) = None \<and>
    find_id env (length w + 2) (GlanceCreate name) = Inr new \<and>
    request env (length w + 3) (GlanceUpload new imagefile) = None"
  then show "image_upload env name imagefile w =
        (Inr (), w @ [ImagesFind name, OpenFile imagefile, GlanceCreate name,
                      GlanceUpload new imagefile])"
    by (simp add: image_upload_def image_delete_def upload_new_def call_find_def
        call_request_def eval_nat_numeral)
next
  assume "find_id env (length w) (ImagesFind name) = Inr old \<and>
    request env (length w + 1) (GlanceDelete old) = None \<and>
    request env (length w + 2) (OpenFile imagefile) = None \<and>
    find_id env (length w + 3) (GlanceCreate name) = Inr new \<and>
    request env (length w + 4) (GlanceUpload new imagefile) = None"
  then show "image_upload env name imagefile w =
        (Inr (), w @ [ImagesFind name, GlanceDelete old, OpenFile imagefile, GlanceCreate name,
                      GlanceUpload new imagefile])"
    by (simp add: image_upload_def image_delete_def upload_new_def call_find_def
        call_request_def eval_nat_numeral)
qed

theorem image_upload_overwrites_witness:
  "image_upload no_image ''img'' ''disk.img'' [] =
     (Inr (), [ImagesFind ''img'', OpenFile ''disk.img'', GlanceCreate ''img'',
               GlanceUpload ''img-1'' ''disk.img'']) \<and>
   image_upload has_image ''img'' ''disk.img'' [] =
     (Inr (), [ImagesFind ''img'', GlanceDelete ''img-old'', OpenFile ''disk.img'',
               GlanceCreate ''img'', GlanceUpload ''img-new'' ''disk.img''])"
  using image_upload_overwrites [where w = "[]" and env = no_image and name = "''img''"
      and imagefile = "''disk.img''" and new = "''img-1''" and old = "''img-0''"]
    image_upload_overwrites [where w = "[]" and env = has_image and name = "''img''"
      and imagefile = "''disk.img''" and new = "''img-new''" and old = "''img-old''"]
  by (simp add: no_image_def has_image_def upload_new_def call_find_def call_request_def)

section \<open>One iteration of each wait\<close>

lemma status_wait_active [simp]: "status_wait env name fuel ''ACTIVE'' w = (Returned, w)"
  by (cases fuel) simp_all

lemma status_wait_absent:
  "st \<noteq> ''ACTIVE'' \<Longrightarrow> servers_list env (nq w) name = Inr [] \<Longrightarrow>
   status_wait env name (Suc n) st w = status_wait env name n st (w @ [ServersList name])"
  by (simp add: vm_status_def subscript_def)

lemma status_wait_listed:
  "st \<noteq> ''ACTIVE'' \<Longrightarrow> servers_list env (nq w) name = Inr (srv # rest) \<Longrightarrow>
   status_wait env name (Suc n) st w =
     status_wait env name n (server_status srv) (w @ [ServersList name, Sleep 1])"
  by (simp add: vm_status_def subscript_def sleep_def)

lemma status_wait_failed:
  "st \<noteq> ''ACTIVE'' \<Longrightarrow> servers_list env (nq w) name = Inl e \<Longrightarrow>
   status_wait env name (Suc n) st w =
     (if e = TypeError then status_wait env name n st (w @ [ServersList name])
      else (Raised e, w @ [ServersList name]))"
  by (simp add: vm_status_def subscript_def)

declare status_wait.simps(2) [simp del]

lemma delete_wait_absent:
  "servers_list env (nq w) name = Inr [] \<Longrightarrow>
   delete_wait env name (Suc n) w = (Returned, w @ [ServersList name])"
  by (simp add: vm_status_def subscript_def)

lemma delete_wait_listed:
  "servers_list env (nq w) name = Inr (srv # rest) \<Longrightarrow>
   delete_wait env name (Suc n) w = delete_wait env name n (w @ [ServersList name])"
  by (simp add: vm_status_def subscript_def)

lemma delete_wait_failed:
  "servers_list env (nq w) name = Inl e \<Longrightarrow>
   delete_wait env name (Suc n) w =
     (if e = TypeError then Returned else Raised e, w @ [ServersList name])"
  by (simp add: vm_status_def subscript_def)

declare delete_wait.simps(2) [simp del]

lemma vm_listedE:
  assumes "vm_listed env name i"
  obtains srv rest where "servers_list env i name = Inr (srv # rest)"
  using assms by (auto simp: vm_listed_def split: sum.splits list.splits)

lemma stop_wait_listed:
  "servers_list env (nq w) name = Inr (srv # rest) \<Longrightarrow>
   stop_wait env name (Suc n) w =
     (if server_power_state srv = 1 then stop_wait env name n (w @ [ServersList name, Sleep 1])
      else (Returned, w @ [ServersList name]))"
  by (simp add: vm_status_def subscript_def sleep_def)

lemma stop_wait_unlisted:
  "\<not> vm_listed env name (nq w) \<Longrightarrow>
   \<exists>e. stop_wait env name (Suc n) w = (Raised e, w @ [ServersList name])"
  by (auto simp: vm_status_def subscript_def vm_listed_def split: sum.splits list.splits)

lemma start_wait_listed:
  "servers_list env (nq w) name = Inr (srv # rest) \<Longrightarrow>
   start_wait env name (Suc n) w =
     (if server_power_state srv \<noteq> 1 then start_wait env name n (w @ [ServersList name, Sleep 1])
      else (Returned, w @ [ServersList name]))"
  by (simp add: vm_status_def subscript_def sleep_def)

lemma start_wait_unlisted:
  "\<not> vm_listed env name (nq w) \<Longrightarrow>
   \<exists>e. start_wait env name (Suc n) w = (Raised e, w @ [ServersList name])"
  by (auto simp: vm_status_def subscript_def vm_listed_def split: sum.splits list.splits)

declare stop_wait.simps(2) [simp del] start_wait.simps(2) [simp del]

lemma ping_wait_done [simp]: "ping_wait env name fuel True w = (Returned, w)"
  by (cases fuel) simp_all

lemma ping_wait_unlisted:
  "\<not> vm_listed env name (nq w) \<Longrightarrow>
   ping_wait env name (Suc n) False w = ping_wait env name n False (w @ [ServersList name])"
  by (auto simp: vm_status_def subscript_def vm_listed_def split: sum.splits list.splits)

lemma ping_wait_listed:
  "servers_list env (nq w) name = Inr (srv # rest) \<Longrightarrow>
   ip = snd (first_address (server_addresses srv)) \<Longrightarrow>
   ping_wait env name (Suc n) False w =
     (if ping_exit env (np w) ip = Inr 0
      then (Returned, w @ [ServersList name, Ping ip, Sleep 2])
      else ping_wait env name n False (w @ [ServersList name, Ping ip]))"
  by (auto simp: vm_status_def subscript_def check_call_ping_def sleep_def
      split: sum.splits)

declare ping_wait.simps(2) [simp del]

lemma ping_wait_never_raises: "fst (ping_wait env name fuel b w) \<noteq> Raised e"
proof (induction fuel arbitrary: b w)
  case 0
  show ?case by simp
next
  case (Suc n)
  show ?case
  proof (cases b)
    case True
    then show ?thesis by simp
  next
    case False
    show ?thesis
    proof (cases "vm_listed env name (nq w)")
      case True
      then obtain srv rest where "servers_list env (nq w) name = Inr (srv # rest)"
        by (rule vm_listedE)
      then show ?thesis using \<open>\<not> b\<close> Suc.IH by (simp add: ping_wait_listed)
    next
      case False
      then show ?thesis using \<open>\<not> b\<close> Suc.IH by (simp add: ping_wait_unlisted)
    qed
  qed
qed

lemma status_wait_returned:
  "fst (status_wait env name fuel st w) = Returned \<Longrightarrow> st \<noteq> ''ACTIVE'' \<Longrightarrow>
   \<exists>mid srv rest.
     snd (status_wait env name fuel st w) = w @ mid @ [ServersList name, Sleep 1] \<and>
     servers_list env (nq (w @ mid)) name = Inr (srv # rest) \<and>
     server_status srv = ''ACTIVE''"
proof (induction fuel arbitrary: st w)
  case 0
  then show ?case by simp
next
  case (Suc n)
  show ?case
  proof (cases "servers_list env (nq w) name")
    case (Inl e)
    with Suc.prems have e: "e = TypeError"
      and r: "fst (status_wait env name n st (w @ [ServersList name])) = Returned"
      by (auto simp: status_wait_failed split: if_splits)
    from Suc.IH [OF r Suc.prems(2)] obtain mid srv rest where
      "snd (status_wait env name n st (w @ [ServersList name])) =
         (w @ [ServersList name]) @ mid @ [ServersList name, Sleep 1]"
      "servers_list env (nq ((w @ [ServersList name]) @ mid)) name = Inr (srv # rest)"
      "server_status srv = ''ACTIVE''" by blast
    then show ?thesis using Inl e Suc.prems(2)
      by (intro exI [of _ "ServersList name # mid"] exI [of _ srv] exI [of _ rest])
        (simp add: status_wait_failed)
  next
    case (Inr l)
    show ?thesis
    proof (cases l)
      case Nil
      with Inr Suc.prems
      have r: "fst (status_wait env name n st (w @ [ServersList name])) = Returned"
        by (simp add: status_wait_absent)
      from Suc.IH [OF r Suc.prems(2)] obtain mid srv rest where
        "snd (status_wait env name n st (w @ [ServersList name])) =
           (w @ [ServersList name]) @ mid @ [ServersList name, Sleep 1]"
        "servers_list env (nq ((w @ [ServersList name]) @ mid)) name = Inr (srv # rest)"
        "server_status srv = ''ACTIVE''" by blast
      then show ?thesis using Inr Nil Suc.prems(2)
        by (intro exI [of _ "ServersList name # mid"] exI [of _ srv] exI [of _ rest])
          (simp add: status_wait_absent)
    next
      case (Cons srv0 rest0)
      show ?thesis
      proof (cases "server_status srv0 = ''ACTIVE''")
        case True
        then show ?thesis using Inr Cons Suc.prems(2)
          by (intro exI [of _ "[]"] exI [of _ srv0] exI [of _ rest0])
            (simp add: status_wait_listed)
      next
        case False
        with Inr Cons Suc.prems
        have r: "fst (status_wait env name n (server_status srv0)
                   (w @ [ServersList name, Sleep 1])) = Returned"
          by (simp add: status_wait_listed)
        from Suc.IH [OF r False] obtain mid srv rest where
          "snd (status_wait env name n (server_status srv0) (w @ [ServersList name, Sleep 1])) =
             (w @ [ServersList name, Sleep 1]) @ mid @ [ServersList name, Sleep 1]"
          "servers_list env (nq ((w @ [ServersList name, Sleep 1]) @ mid)) name = Inr (srv # rest)"
          "server_status srv = ''ACTIVE''" by blast
        then show ?thesis using Inr Cons Suc.prems(2)
          by (intro exI [of _ "ServersList name # Sleep 1 # mid"] exI [of _ srv] exI [of _ rest])
            (simp add: status_wait_listed)
      qed
    qed
  qed
qed

lemma ping_wait_returned:
  "fst (ping_wait env name fuel False w) = Returned \<Longrightarrow>
   \<exists>mid srv rest.
     snd (ping_wait env name fuel False w) =
       w @ mid @ [ServersList name, Ping (snd (first_address (server_addresses srv))), Sleep 2] \<and>
     servers_list env (nq (w @ mid)) name = Inr (srv # rest) \<and>
     ping_exit env (np (w @ mid)) (snd (first_address (server_addresses srv))) = Inr 0"
proof (induction fuel arbitrary: w)
  case 0
  then show ?case by simp
next
  case (Suc n)
  show ?case
  proof (cases "vm_listed env name (nq w)")
    case False
    with Suc.prems
    have r: "fst (ping_wait env name n False (w @ [ServersList name])) = Returned"
      by (simp add: ping_wait_unlisted)
    from Suc.IH [OF r] obtain mid srv rest where
      "snd (ping_wait env name n False (w @ [ServersList name])) =
         (w @ [ServersList name]) @ mid @
           [ServersList name, Ping (snd (first_address (server_addresses srv))), Sleep 2]"
      "servers_list env (nq ((w @ [ServersList name]) @ mid)) name = Inr (srv # rest)"
      "ping_exit env (np ((w @ [ServersList name]) @ mid))
         (snd (first_address (server_addresses srv))) = Inr 0" by blast
    then show ?thesis using False
      by (intro exI [of _ "ServersList name # mid"] exI [of _ srv] exI [of _ rest])
        (simp add: ping_wait_unlisted)
  next
    case True
    then obtain srv0 rest0 where l: "servers_list env (nq w) name = Inr (srv0 # rest0)"
      by (rule vm_listedE)
    define ip where "ip = snd (first_address (server_addresses srv0))"
    show ?thesis
    proof (cases "ping_exit env (np w) ip = Inr 0")
      case True
      then show ?thesis using l
        by (intro exI [of _ "[]"] exI [of _ srv0] exI [of _ rest0])
          (simp add: ping_wait_listed ip_def)
    next
      case False
      with l Suc.prems
      have r: "fst (ping_wait env name n False (w @ [ServersList name, Ping ip])) = Returned"
        by (simp add: ping_wait_listed ip_def)
      from Suc.IH [OF r] obtain mid srv rest where
        "snd (ping_wait env name n False (w @ [ServersList name, Ping ip])) =
           (w @ [ServersList name, Ping ip]) @ mid @
             [ServersList name, Ping (snd (first_address (server_addresses srv))), Sleep 2]"
        "servers_list env (nq ((w @ [ServersList name, Ping ip]) @ mid)) name = Inr (srv # rest)"
        "ping_exit env (np ((w @ [ServersList name, Ping ip]) @ mid))
           (snd (first_address (server_addresses srv))) = Inr 0" by blast
      then show ?thesis using l False
        by (intro exI [of _ "ServersList name # Ping ip # mid"] exI [of _ srv] exI [of _ rest])
          (simp add: ping_wait_listed ip_def)
    qed
  qed
qed

section \<open>Create\<close>

lemma vm_create_returned:
  "vm_create env fuel name image_name key_pair flavor network w = (Returned, w1) \<Longrightarrow>
   \<exists>w4. length w \<le> length w4 \<and> fst (status_wait env name fuel [] w4) = Returned \<and>
        ping_wait env name fuel False (snd (status_wait env name fuel [] w4)) = (Returned, w1)"
  apply (auto simp: vm_create_def call_find_def call_request_def
      split: prod.splits sum.splits outcome.splits option.splits)
  subgoal for net_id image_id flavor_id w5
    by (rule exI [of _ "w @ [NetworksFind network, ImagesFind image_name, FlavorsFind flavor,
          ServersCreate name image_id flavor_id net_id key_pair]"]) simp
  done

text \<open>
  C1, as amended: when \<open>vm_create\<close> returns, its trace holds a status query that was
  answered with status ACTIVE and, later, a status query followed by a probe of the first
  address of the VM it listed, a probe that exited with 0; the trace ends there, with the
  sleep after the probe. \<open>main\<close> then queries the status once more: when this last query
  lists a VM it prints the first address of that VM, whether or not it is the address
  that was probed; when it lists none \<open>main\<close> ends with a TypeError, and when it fails,
  with that failure; in both cases nothing is printed.
\<close>

theorem vm_create_waits:
  assumes "vm_create env fuel name image_name key_pair flavor network w = (Returned, w1)"
  shows "(\<exists>pre mid srv rest srv' rest'.
     w1 = pre @ [ServersList name, Sleep 1] @ mid @
          [ServersList name, Ping (snd (first_address (server_addresses srv'))), Sleep 2] \<and>
     length w \<le> length pre \<and>
     servers_list env (nq pre) name = Inr (srv # rest) \<and> server_status srv = ''ACTIVE'' \<and>
     servers_list env (nq (pre @ [ServersList name, Sleep 1] @ mid)) name = Inr (srv' # rest') \<and>
     ping_exit env (np (pre @ [ServersList name, Sleep 1] @ mid))
       (snd (first_address (server_addresses srv'))) = Inr 0) \<and>
     main_create env fuel name image_name key_pair flavor network w =
       (case servers_list env (nq w1) name of
          Inl e \<Rightarrow> (Raised e, w1 @ [ServersList name])
        | Inr [] \<Rightarrow> (Raised TypeError, w1 @ [ServersList name])
        | Inr (s # _) \<Rightarrow>
            (Returned,
             w1 @ [ServersList name, Print (snd (first_address (server_addresses s)))]))"
proof -
  from vm_create_returned [OF assms] obtain w4 where
    w4: "length w \<le> length w4" and
    s: "fst (status_wait env name fuel [] w4) = Returned" and
    p: "ping_wait env name fuel False (snd (status_wait env name fuel [] w4)) = (Returned, w1)"
    by blast
  from status_wait_returned [OF s] obtain mid1 srv rest where
    w5: "snd (status_wait env name fuel [] w4) = w4 @ mid1 @ [ServersList name, Sleep 1]" and
    a: "servers_list env (nq (w4 @ mid1)) name = Inr (srv # rest)" "server_status srv = ''ACTIVE''"
    by auto
  define w5 where "w5 = w4 @ mid1 @ [ServersList name, Sleep 1]"
  have p': "ping_wait env name fuel False w5 = (Returned, w1)"
    using p w5 by (simp add: w5_def)
  then have "fst (ping_wait env name fuel False w5) = Returned" by simp
  from ping_wait_returned [OF this] p' obtain mid srv' rest' where
    w1: "w1 = w5 @ mid @
       [ServersList name, Ping (snd (first_address (server_addresses srv'))), Sleep 2]" and
    b: "servers_list env (nq (w5 @ mid)) name = Inr (srv' # rest')"
       "ping_exit env (np (w5 @ mid)) (snd (first_address (server_addresses srv'))) = Inr 0"
    by auto
  have m: "main_create env fuel name image_name key_pair flavor network w =
       (case servers_list env (nq w1) name of
          Inl e \<Rightarrow> (Raised e, w1 @ [ServersList name])
        | Inr [] \<Rightarrow> (Raised TypeError, w1 @ [ServersList name])
        | Inr (s # _) \<Rightarrow>
            (Returned,
             w1 @ [ServersList name, Print (snd (first_address (server_addresses s)))]))"
    using assms
    by (simp add: main_create_def vm_status_def subscript_def split: sum.splits list.splits)
  have "\<exists>pre mid srv rest srv' rest'.
     w1 = pre @ [ServersList name, Sleep 1] @ mid @
          [ServersList name, Ping (snd (first_address (server_addresses srv'))), Sleep 2] \<and>
     length w \<le> length pre \<and>
     servers_list env (nq pre) name = Inr (srv # rest) \<and> server_status srv = ''ACTIVE'' \<and>
     servers_list env (nq (pre @ [ServersList name, Sleep 1] @ mid)) name = Inr (srv' # rest') \<and>
     ping_exit env (np (pre @ [ServersList name, Sleep 1] @ mid))
       (snd (first_address (server_addresses srv'))) = Inr 0"
    using w1 w4 a b
    by (intro exI [of _ "w4 @ mid1"] exI [of _ mid] exI [of _ srv] exI [of _ rest]
        exI [of _ srv'] exI [of _ rest']) (simp add: w5_def)
  with m show ?thesis by blast
qed

lemma booting_create:
  "vm_create booting 5 ''test-vm'' ''cirros'' ''key'' ''small'' ''private'' [] =
     (Returned,
      [NetworksFind ''private'', ImagesFind ''cirros'', FlavorsFind ''small'',
       ServersCreate ''test-vm'' ''id-0'' ''id-0'' ''id-0'' ''key'',
       ServersList ''test-vm'', Sleep 1, ServersList ''test-vm'', Sleep 1,
       ServersList ''test-vm'', Sleep 1, ServersList ''test-vm'', Sleep 1,
       ServersList ''test-vm'', Ping ''10.0.0.5'', ServersList ''test-vm'', Ping ''10.0.0.5'',
       ServersList ''test-vm'', Ping ''10.0.0.5'', Sleep 2])"
  by code_simp

theorem vm_create_waits_witness:
  "vm_create booting 5 ''test-vm'' ''cirros'' ''key'' ''small'' ''private'' [] =
     (Returned,
      [NetworksFind ''private'', ImagesFind ''cirros'', FlavorsFind ''small'',
       ServersCreate ''test-vm'' ''id-0'' ''id-0'' ''id-0'' ''key'',
       ServersList ''test-vm'', Sleep 1, ServersList ''test-vm'', Sleep 1,
       ServersList ''test-vm'', Sleep 1, ServersList ''test-vm'', Sleep 1,
       ServersList ''test-vm'', Ping ''10.0.0.5'', ServersList ''test-vm'', Ping ''10.0.0.5'',
       ServersList ''test-vm'', Ping ''10.0.0.5'', Sleep 2]) \<and>
   snd (main_create booting 5 ''test-vm'' ''cirros'' ''key'' ''small'' ''private'' []) =
     snd (vm_create booting 5 ''test-vm'' ''cirros'' ''key'' ''small'' ''private'' []) @
     [ServersList ''test-vm'', Print ''10.0.0.5'']"
proof -
  let ?W = "[NetworksFind ''private'', ImagesFind ''cirros'', FlavorsFind ''small'',
       ServersCreate ''test-vm'' ''id-0'' ''id-0'' ''id-0'' ''key'',
       ServersList ''test-vm'', Sleep 1, ServersList ''test-vm'', Sleep 1,
       ServersList ''test-vm'', Sleep 1, ServersList ''test-vm'', Sleep 1,
       ServersList ''test-vm'', Ping ''10.0.0.5'', ServersList ''test-vm'', Ping ''10.0.0.5'',
       ServersList ''test-vm'', Ping ''10.0.0.5'', Sleep 2]"
  have c: "vm_create booting 5 ''test-vm'' ''cirros'' ''key'' ''small'' ''private'' [] =
      (Returned, ?W)"
    by (rule booting_create)
  have q: "servers_list booting (nq ?W) ''test-vm'' = Inr [vm_demo ''ACTIVE'' 1]"
    by (simp add: nq_def booting_def scripted_def)
  note m = vm_create_waits [OF c, THEN conjunct2]
  show ?thesis
    using c m [unfolded q] by (simp add: first_address_def vm_demo_def)
qed

text \<open>
  C1 as stated fails on the printing: after a successful probe of 10.0.0.5 the last
  status query reports another first address and that one is printed; and when the last
  query lists no VM nothing is printed, \<open>main\<close> ends with a TypeError.
\<close>

theorem vm_create_prints_counterexample:
  "main_create readdress 3 ''test-vm'' ''cirros'' ''key'' ''small'' ''private'' [] =
     (Returned,
      [NetworksFind ''private'', ImagesFind ''cirros'', FlavorsFind ''small'',
       ServersCreate ''test-vm'' ''id-0'' ''id-0'' ''id-0'' ''key'',
       ServersList ''test-vm'', Sleep 1,
       ServersList ''test-vm'', Ping ''10.0.0.5'', Sleep 2,
       ServersList ''test-vm'', Print ''10.0.0.99'']) \<and>
   main_create vanishing 3 ''test-vm'' ''cirros'' ''key'' ''small'' ''private'' [] =
     (Raised TypeError,
      [NetworksFind ''private'', ImagesFind ''cirros'', FlavorsFind ''small'',
       ServersCreate ''test-vm'' ''id-0'' ''id-0'' ''id-0'' ''key'',
       ServersList ''test-vm'', Sleep 1,
       ServersList ''test-vm'', Ping ''10.0.0.5'', Sleep 2,
       ServersList ''test-vm''])"
  by code_simp

section \<open>The waits have no bound\<close>

lemma status_wait_retry:
  "st \<noteq> ''ACTIVE'' \<Longrightarrow> status_verdict env name (nq w) = None \<Longrightarrow>
   \<exists>st' w'. st' \<noteq> ''ACTIVE'' \<and> nq w' = Suc (nq w) \<and>
     (\<forall>n. status_wait env name (Suc n) st w = status_wait env name n st' w')"
proof (cases "servers_list env (nq w) name")
  case (Inl e)
  assume a: "st \<noteq> ''ACTIVE''" "status_verdict env name (nq w) = None"
  with Inl have "e = TypeError" by (simp add: status_verdict_def split: if_splits)
  with Inl a show ?thesis
    by (intro exI [of _ st] exI [of _ "w @ [ServersList name]"]) (simp add: status_wait_failed)
next
  case (Inr l)
  assume a: "st \<noteq> ''ACTIVE''" "status_verdict env name (nq w) = None"
  show ?thesis
  proof (cases l)
    case Nil
    with Inr a show ?thesis
      by (intro exI [of _ st] exI [of _ "w @ [ServersList name]"]) (simp add: status_wait_absent)
  next
    case (Cons srv rest)
    with Inr a have "server_status srv \<noteq> ''ACTIVE''"
      by (simp add: status_verdict_def split: if_splits)
    with Inr Cons a show ?thesis
      by (intro exI [of _ "server_status srv"] exI [of _ "w @ [ServersList name, Sleep 1]"])
        (simp add: status_wait_listed)
  qed
qed

lemma status_wait_stop:
  "st \<noteq> ''ACTIVE'' \<Longrightarrow> status_verdict env name (nq w) = Some r \<Longrightarrow>
   fst (status_wait env name (Suc n) st w) = r \<and>
   nq (snd (status_wait env name (Suc n) st w)) = Suc (nq w)"
  by (cases "servers_list env (nq w) name")
    (auto simp: status_verdict_def status_wait_failed status_wait_listed
      split: if_splits list.splits)

lemma status_wait_ends:
  "st \<noteq> ''ACTIVE'' \<Longrightarrow> \<forall>j<k. status_verdict env name (nq w + j) = None \<Longrightarrow>
   status_verdict env name (nq w + k) = Some r \<Longrightarrow>
   fst (status_wait env name (Suc k + m) st w) = r \<and>
   nq (snd (status_wait env name (Suc k + m) st w)) = nq w + Suc k"
proof (induction k arbitrary: st w)
  case 0
  then show ?case using status_wait_stop [of st env name w r m] by simp
next
  case (Suc k)
  from Suc.prems(2) have "status_verdict env name (nq w) = None" by force
  from status_wait_retry [OF Suc.prems(1) this] obtain st' w' where
    s: "st' \<noteq> ''ACTIVE''" "nq w' = Suc (nq w)"
    "\<forall>n. status_wait env name (Suc n) st w = status_wait env name n st' w'" by blast
  have "\<forall>j<k. status_verdict env name (nq w' + j) = None"
    using Suc.prems(2) s(2) by auto
  moreover have "status_verdict env name (nq w' + k) = Some r"
    using Suc.prems(3) s(2) by simp
  ultimately have "fst (status_wait env name (Suc k + m) st' w') = r \<and>
      nq (snd (status_wait env name (Suc k + m) st' w')) = nq w' + Suc k"
    using Suc.IH [OF s(1)] by blast
  then show ?case using s(2) s(3) [rule_format, of "Suc k + m"] by simp
qed

lemma status_wait_goes_on:
  "st \<noteq> ''ACTIVE'' \<Longrightarrow> \<forall>j. status_verdict env name (nq w + j) = None \<Longrightarrow>
   fst (status_wait env name fuel st w) = Polling"
proof (induction fuel arbitrary: st w)
  case 0
  then show ?case by simp
next
  case (Suc n)
  from Suc.prems(2) [rule_format, of 0] have "status_verdict env name (nq w) = None" by simp
  from status_wait_retry [OF Suc.prems(1) this] obtain st' w' where
    s: "st' \<noteq> ''ACTIVE''" "nq w' = Suc (nq w)"
    "\<forall>n. status_wait env name (Suc n) st w = status_wait env name n st' w'" by blast
  have "\<forall>j. status_verdict env name (nq w' + j) = None"
    using Suc.prems(2) [rule_format, of "Suc j" for j] s(2) by simp
  from Suc.IH [OF s(1) this] show ?case using s(3) by simp
qed


lemma delete_wait_retry:
  "delete_verdict env name (nq w) = None \<Longrightarrow>
   delete_wait env name (Suc n) w = delete_wait env name n (w @ [ServersList name])"
  by (cases "servers_list env (nq w) name")
    (auto simp: delete_verdict_def delete_wait_listed split: if_splits list.splits)

lemma delete_wait_stop:
  "delete_verdict env name (nq w) = Some r \<Longrightarrow>
   delete_wait env name (Suc n) w = (r, w @ [ServersList name])"
  by (cases "servers_list env (nq w) name")
    (auto simp: delete_verdict_def delete_wait_failed delete_wait_absent
      split: if_splits list.splits)

lemma delete_wait_ends:
  "\<forall>j<k. delete_verdict env name (nq w + j) = None \<Longrightarrow>
   delete_verdict env name (nq w + k) = Some r \<Longrightarrow>
   delete_wait env name (Suc k + m) w = (r, w @ replicate (Suc k) (ServersList name))"
proof (induction k arbitrary: w)
  case 0
  then show ?case by (simp add: delete_wait_stop)
next
  case (Suc k)
  from Suc.prems(1) have now: "delete_verdict env name (nq w) = None" by force
  have "\<forall>j<k. delete_verdict env name (nq (w @ [ServersList name]) + j) = None"
    using Suc.prems(1) by auto
  moreover have "delete_verdict env name (nq (w @ [ServersList name]) + k) = Some r"
    using Suc.prems(2) by simp
  ultimately have "delete_wait env name (Suc k + m) (w @ [ServersList name]) =
      (r, (w @ [ServersList name]) @ replicate (Suc k) (ServersList name))"
    by (rule Suc.IH)
  then show ?case
    using delete_wait_retry [OF now, of "Suc k + m"] by (simp add: replicate_app_Cons_same)
qed

lemma delete_wait_goes_on:
  "\<forall>j. delete_verdict env name (nq w + j) = None \<Longrightarrow>
   fst (delete_wait env name fuel w) = Polling"
proof (induction fuel arbitrary: w)
  case 0
  show ?case by simp
next
  case (Suc n)
  from Suc.prems [rule_format, of 0] have now: "delete_verdict env name (nq w) = None" by simp
  have "\<forall>j. delete_verdict env name (nq (w @ [ServersList name]) + j) = None"
    using Suc.prems [rule_format, of "Suc j" for j] by simp
  from Suc.IH [OF this] show ?case by (simp add: delete_wait_retry [OF now])
qed

lemma stop_wait_retry:
  "stop_verdict env name (nq w) = None \<Longrightarrow>
   stop_wait env name (Suc n) w = stop_wait env name n (w @ [ServersList name, Sleep 1])"
  by (cases "servers_list env (nq w) name")
    (auto simp: stop_verdict_def stop_wait_listed split: if_splits list.splits)

lemma stop_wait_stop:
  "stop_verdict env name (nq w) = Some r \<Longrightarrow>
   stop_wait env name (Suc n) w = (r, w @ [ServersList name])"
  by (cases "servers_list env (nq w) name")
    (auto simp: stop_verdict_def stop_wait_listed stop_wait.simps(2) vm_status_def
      subscript_def split: if_splits list.splits)

lemma stop_wait_ends:
  "\<forall>j<k. stop_verdict env name (nq w + j) = None \<Longrightarrow>
   stop_verdict env name (nq w + k) = Some r \<Longrightarrow>
   fst (stop_wait env name (Suc k + m) w) = r \<and>
   nq (snd (stop_wait env name (Suc k + m) w)) = nq w + Suc k"
proof (induction k arbitrary: w)
  case 0
  then show ?case by (simp add: stop_wait_stop)
next
  case (Suc k)
  from Suc.prems(1) have now: "stop_verdict env name (nq w) = None" by force
  have "\<forall>j<k. stop_verdict env name (nq (w @ [ServersList name, Sleep 1]) + j) = None"
    using Suc.prems(1) by auto
  moreover have "stop_verdict env name (nq (w @ [ServersList name, Sleep 1]) + k) = Some r"
    using Suc.prems(2) by simp
  ultimately have "fst (stop_wait env name (Suc k + m) (w @ [ServersList name, Sleep 1])) = r \<and>
      nq (snd (stop_wait env name (Suc k + m) (w @ [ServersList name, Sleep 1]))) =
        nq (w @ [ServersList name, Sleep 1]) + Suc k"
    by (rule Suc.IH)
  then show ?case
    using stop_wait_retry [OF now, of "Suc k + m"] by simp
qed

lemma stop_wait_goes_on:
  "\<forall>j. stop_verdict env name (nq w + j) = None \<Longrightarrow>
   fst (stop_wait env name fuel w) = Polling"
proof (induction fuel arbitrary: w)
  case 0
  show ?case by simp
next
  case (Suc n)
  from Suc.prems [rule_format, of 0] have now: "stop_verdict env name (nq w) = None" by simp
  have "\<forall>j. stop_verdict env name (nq (w @ [ServersList name, Sleep 1]) + j) = None"
    using Suc.prems [rule_format, of "Suc j" for j] by simp
  from Suc.IH [OF this] show ?case by (simp add: stop_wait_retry [OF now])
qed

lemma start_wait_retry:
  "start_verdict env name (nq w) = None \<Longrightarrow>
   start_wait env name (Suc n) w = start_wait env name n (w @ [ServersList name, Sleep 1])"
  by (cases "servers_list env (nq w) name")
    (auto simp: start_verdict_def start_wait_listed split: if_splits list.splits)

lemma start_wait_stop:
  "start_verdict env name (nq w) = Some r \<Longrightarrow>
   start_wait env name (Suc n) w = (r, w @ [ServersList name])"
  by (cases "servers_list env (nq w) name")
    (auto simp: start_verdict_def start_wait_listed start_wait.simps(2) vm_status_def
      subscript_def split: if_splits list.splits)

lemma start_wait_ends:
  "\<forall>j<k. start_verdict env name (nq w + j) = None \<Longrightarrow>
   start_verdict env name (nq w + k) = Some r \<Longrightarrow>
   fst (start_wait env name (Suc k + m) w) = r \<and>
   nq (snd (start_wait env name (Suc k + m) w)) = nq w + Suc k"
proof (induction k arbitrary: w)
  case 0
  then show ?case by (simp add: start_wait_stop)
next
  case (Suc k)
  from Suc.prems(1) have now: "start_verdict env name (nq w) = None" by force
  have "\<forall>j<k. start_verdict env name (nq (w @ [ServersList name, Sleep 1]) + j) = None"
    using Suc.prems(1) by auto
  moreover have "start_verdict env name (nq (w @ [ServersList name, Sleep 1]) + k) = Some r"
    using Suc.prems(2) by simp
  ultimately have "fst (start_wait env name (Suc k + m) (w @ [ServersList name, Sleep 1])) = r \<and>
      nq (snd (start_wait env name (Suc k + m) (w @ [ServersList name, Sleep 1]))) =
        nq (w @ [ServersList name, Sleep 1]) + Suc k"
    by (rule Suc.IH)
  then show ?case
    using start_wait_retry [OF now, of "Suc k + m"] by simp
qed

lemma start_wait_goes_on:
  "\<forall>j. start_verdict env name (nq w + j) = None \<Longrightarrow>
   fst (start_wait env name fuel w) = Polling"
proof (induction fuel arbitrary: w)
  case 0
  show ?case by simp
next
  case (Suc n)
  from Suc.prems [rule_format, of 0] have now: "start_verdict env name (nq w) = None" by simp
  have "\<forall>j. start_verdict env name (nq (w @ [ServersList name, Sleep 1]) + j) = None"
    using Suc.prems [rule_format, of "Suc j" for j] by simp
  from Suc.IH [OF this] show ?case by (simp add: start_wait_retry [OF now])
qed

lemma ping_wait_retry:
  "\<not> reachable env name (nq w) (np w) \<Longrightarrow>
   \<exists>w'. nq w' = Suc (nq w) \<and>
     np w' = (if vm_listed env name (nq w) then 1 else 0) + np w \<and>
     (\<forall>n. ping_wait env name (Suc n) False w = ping_wait env name n False w')"
proof (cases "vm_listed env name (nq w)")
  case False
  then show ?thesis
    by (intro exI [of _ "w @ [ServersList name]"]) (simp add: ping_wait_unlisted)
next
  case True
  assume a: "\<not> reachable env name (nq w) (np w)"
  from True obtain srv rest where l: "servers_list env (nq w) name = Inr (srv # rest)"
    by (rule vm_listedE)
  with a have "ping_exit env (np w) (snd (first_address (server_addresses srv))) \<noteq> Inr 0"
    by (simp add: reachable_def)
  with l True show ?thesis
    by (intro exI [of _ "w @ [ServersList name,
          Ping (snd (first_address (server_addresses srv)))]"]) (simp add: ping_wait_listed)
qed

lemma ping_wait_stop:
  "reachable env name (nq w) (np w) \<Longrightarrow>
   fst (ping_wait env name (Suc n) False w) = Returned \<and>
   nq (snd (ping_wait env name (Suc n) False w)) = Suc (nq w)"
  by (cases "servers_list env (nq w) name")
    (auto simp: reachable_def ping_wait_listed split: list.splits)

lemma ping_wait_ends:
  "\<forall>j<k. \<not> reachable env name (nq w + j) (np w + probes env name (nq w) j) \<Longrightarrow>
   reachable env name (nq w + k) (np w + probes env name (nq w) k) \<Longrightarrow>
   fst (ping_wait env name (Suc k + m) False w) = Returned \<and>
   nq (snd (ping_wait env name (Suc k + m) False w)) = nq w + Suc k"
proof (induction k arbitrary: w)
  case 0
  then show ?case using ping_wait_stop [of env name w m] by simp
next
  case (Suc k)
  from Suc.prems(1) [rule_format, of 0] have "\<not> reachable env name (nq w) (np w)" by simp
  from ping_wait_retry [OF this] obtain w' where
    s: "nq w' = Suc (nq w)" "np w' = (if vm_listed env name (nq w) then 1 else 0) + np w"
    "\<forall>n. ping_wait env name (Suc n) False w = ping_wait env name n False w'" by blast
  have "\<forall>j<k. \<not> reachable env name (nq w' + j) (np w' + probes env name (nq w') j)"
  proof (intro allI impI)
    fix j assume "j < k"
    with Suc.prems(1) [rule_format, of "Suc j"] s(1) s(2)
    show "\<not> reachable env name (nq w' + j) (np w' + probes env name (nq w') j)"
      by (simp add: add.assoc add.left_commute)
  qed
  moreover have "reachable env name (nq w' + k) (np w' + probes env name (nq w') k)"
    using Suc.prems(2) s(1) s(2) by (simp add: add.assoc add.left_commute)
  ultimately have "fst (ping_wait env name (Suc k + m) False w') = Returned \<and>
      nq (snd (ping_wait env name (Suc k + m) False w')) = nq w' + Suc k"
    by (rule Suc.IH)
  then show ?case using s(1) s(3) [rule_format, of "Suc k + m"] by simp
qed

lemma ping_wait_goes_on:
  "\<forall>j. \<not> reachable env name (nq w + j) (np w + probes env name (nq w) j) \<Longrightarrow>
   fst (ping_wait env name fuel False w) = Polling"
proof (induction fuel arbitrary: w)
  case 0
  show ?case by simp
next
  case (Suc n)
  from Suc.prems [rule_format, of 0] have "\<not> reachable env name (nq w) (np w)" by simp
  from ping_wait_retry [OF this] obtain w' where
    s: "nq w' = Suc (nq w)" "np w' = (if vm_listed env name (nq w) then 1 else 0) + np w"
    "\<forall>n. ping_wait env name (Suc n) False w = ping_wait env name n False w'" by blast
  have "\<forall>j. \<not> reachable env name (nq w' + j) (np w' + probes env name (nq w') j)"
  proof
    fix j
    from Suc.prems [rule_format, of "Suc j"] s(1) s(2)
    show "\<not> reachable env name (nq w' + j) (np w' + probes env name (nq w') j)"
      by (simp add: add.assoc add.left_commute)
  qed
  from Suc.IH [OF this] show ?case using s(3) by simp
qed

text \<open>
  C9, as amended: no wait has a timeout; a wait ends only on an answer that ends it.
  For each of the five waits and for every trace of answers: when the answers to its
  first \<open>k\<close> queries make the loop go round again and the answer number \<open>k\<close> ends it, the
  wait ends there, after exactly \<open>k + 1\<close> queries and given any fuel above \<open>k\<close>: it returns
  when that answer satisfies what it waits for (for delete's wait, also when the query
  raises TypeError), and it raises when that answer is a failure the loop does not
  catch. When every answer makes the loop go round again, the wait is still polling at
  the end of every fuel: it neither returns nor raises.
\<close>

theorem polling_unbounded:
  "((\<forall>j<k. status_verdict env name (nq w + j) = None) \<and>
    status_verdict env name (nq w + k) = Some r \<longrightarrow>
      fst (status_wait env name (Suc k + m) [] w) = r \<and>
      nq (snd (status_wait env name (Suc k + m) [] w)) = nq w + Suc k) \<and>
   ((\<forall>j. status_verdict env name (nq w + j) = None) \<longrightarrow>
      fst (status_wait env name fuel [] w) = Polling) \<and>
   ((\<forall>j<k. \<not> reachable env name (nq w + j) (np w + probes env name (nq w) j)) \<and>
    reachable env name (nq w + k) (np w + probes env name (nq w) k) \<longrightarrow>
      fst (ping_wait env name (Suc k + m) False w) = Returned \<and>
      nq (snd (ping_wait env name (Suc k + m) False w)) = nq w + Suc k) \<and>
   ((\<forall>j. \<not> reachable env name (nq w + j) (np w + probes env name (nq w) j)) \<longrightarrow>
      fst (ping_wait env name fuel False w) = Polling) \<and>
   ((\<forall>j<k. delete_verdict env name (nq w + j) = None) \<and>
    delete_verdict env name (nq w + k) = Some r \<longrightarrow>
      delete_wait env name (Suc k + m) w = (r, w @ replicate (Suc k) (ServersList name))) \<and>
   ((\<forall>j. delete_verdict env name (nq w + j) = None) \<longrightarrow>
      fst (delete_wait env name fuel w) = Polling) \<and>
   ((\<forall>j<k. stop_verdict env name (nq w + j) = None) \<and>
    stop_verdict env name (nq w + k) = Some r \<longrightarrow>
      fst (stop_wait env name (Suc k + m) w) = r \<and>
      nq (snd (stop_wait env name (Suc k + m) w)) = nq w + Suc k) \<and>
   ((\<forall>j. stop_verdict env name (nq w + j) = None) \<longrightarrow>
      fst (stop_wait env name fuel w) = Polling) \<and>
   ((\<forall>j<k. start_verdict env name (nq w + j) = None) \<and>
    start_verdict env name (nq w + k) = Some r \<longrightarrow>
      fst (start_wait env name (Suc k + m) w) = r \<and>
      nq (snd (start_wait env name (Suc k + m) w)) = nq w + Suc k) \<and>
   ((\<forall>j. start_verdict env name (nq w + j) = None) \<longrightarrow>
      fst (start_wait env name fuel w) = Polling)"
proof -
  have ne: "[] \<noteq> ''ACTIVE''" by simp
  note create_status = status_wait_ends [OF ne, of k env name w r m]
    status_wait_goes_on [OF ne, of env name w fuel]
  note create_probe = ping_wait_ends [of k env name w m] ping_wait_goes_on [of env name w fuel]
  note delete = delete_wait_ends [of k env name w r m] delete_wait_goes_on [of env name w fuel]
  note stop = stop_wait_ends [of k env name w r m] stop_wait_goes_on [of env name w fuel]
  note start = start_wait_ends [of k env name w r m] start_wait_goes_on [of env name w fuel]
  show ?thesis
    using create_status create_probe delete stop start by blast
qed

theorem polling_unbounded_witness:
  "fst (status_wait booting ''test-vm'' 4 [] []) = Returned \<and>
   fst (status_wait late ''test-vm'' 3 [] []) = Returned \<and>
   fst (status_wait hiccup ''test-vm'' 1 [] []) = Raised (OtherError ''timeout'') \<and>
   fst (status_wait no_image ''test-vm'' 9 [] []) = Polling \<and>
   fst (ping_wait booting ''test-vm'' 3 False []) = Returned \<and>
   fst (ping_wait late ''test-vm'' 4 False []) = Returned \<and>
   fst (ping_wait no_image ''test-vm'' 9 False []) = Polling \<and>
   delete_wait vanishing ''test-vm'' 3 [] =
     (Returned, [ServersList ''test-vm'', ServersList ''test-vm'', ServersList ''test-vm'']) \<and>
   fst (delete_wait (steady ''ACTIVE'' 1) ''test-vm'' 9 []) = Polling \<and>
   fst (stop_wait halting ''test-vm'' 3 []) = Returned \<and>
   fst (stop_wait vanishing ''test-vm'' 3 []) = Raised TypeError \<and>
   fst (stop_wait (steady ''ACTIVE'' 1) ''test-vm'' 9 []) = Polling \<and>
   fst (start_wait booting ''test-vm'' 4 []) = Returned \<and>
   fst (start_wait (steady ''SHUTOFF'' 4) ''test-vm'' 9 []) = Polling"
proof -
  have "fst (status_wait booting ''test-vm'' 4 [] []) = Returned"
    "fst (start_wait booting ''test-vm'' 4 []) = Returned"
    using polling_unbounded [where k = 3 and env = booting and name = "''test-vm''"
        and w = "[]" and m = 0 and r = Returned]
    by (simp_all add: booting_def scripted_def vm_demo_def status_verdict_def
        start_verdict_def nq_def)
  moreover have "fst (ping_wait booting ''test-vm'' 3 False []) = Returned"
    using polling_unbounded [where k = 2 and env = booting and name = "''test-vm''"
        and w = "[]" and m = 0]
    by (simp add: booting_def scripted_def vm_demo_def reachable_def vm_listed_def
        nq_def np_def eval_nat_numeral All_less_Suc)
  moreover have "fst (status_wait late ''test-vm'' 3 [] []) = Returned"
    using polling_unbounded [where k = 2 and env = late and name = "''test-vm''"
        and w = "[]" and m = 0 and r = Returned]
    by (simp add: late_def scripted_def vm_demo_def status_verdict_def nq_def
        eval_nat_numeral All_less_Suc)
  moreover have "fst (ping_wait late ''test-vm'' 4 False []) = Returned"
    using polling_unbounded [where k = 3 and env = late and name = "''test-vm''"
        and w = "[]" and m = 0]
    by (simp add: late_def scripted_def vm_demo_def reachable_def vm_listed_def
        nq_def np_def eval_nat_numeral All_less_Suc)
  moreover have "fst (status_wait hiccup ''test-vm'' 1 [] []) = Raised (OtherError ''timeout'')"
    using polling_unbounded [where k = 0 and env = hiccup and name = "''test-vm''"
        and w = "[]" and m = 0 and r = "Raised (OtherError ''timeout'')"]
    by (simp add: hiccup_def scripted_def status_verdict_def nq_def)
  moreover have "fst (status_wait no_image ''test-vm'' 9 [] []) = Polling"
    "fst (ping_wait no_image ''test-vm'' 9 False []) = Polling"
    using polling_unbounded [where env = no_image and name = "''test-vm''" and w = "[]"
        and fuel = 9]
    by (simp_all add: no_image_def status_verdict_def reachable_def)
  moreover have "delete_wait vanishing ''test-vm'' 3 [] =
     (Returned, [ServersList ''test-vm'', ServersList ''test-vm'', ServersList ''test-vm''])"
    using polling_unbounded [where k = 2 and env = vanishing and name = "''test-vm''"
        and w = "[]" and m = 0 and r = Returned]
    by (simp add: vanishing_def scripted_def delete_verdict_def nq_def eval_nat_numeral)
  moreover have "fst (stop_wait vanishing ''test-vm'' 3 []) = Raised TypeError"
    using polling_unbounded [where k = 2 and env = vanishing and name = "''test-vm''"
        and w = "[]" and m = 0 and r = "Raised TypeError"]
    by (simp add: vanishing_def scripted_def vm_demo_def stop_verdict_def nq_def)
  moreover have "fst (delete_wait (steady ''ACTIVE'' 1) ''test-vm'' 9 []) = Polling"
    "fst (stop_wait (steady ''ACTIVE'' 1) ''test-vm'' 9 []) = Polling"
    using polling_unbounded [where env = "steady ''ACTIVE'' 1" and name = "''test-vm''"
        and w = "[]" and fuel = 9]
    by (simp_all add: steady_def scripted_def vm_demo_def delete_verdict_def stop_verdict_def)
  moreover have "fst (stop_wait halting ''test-vm'' 3 []) = Returned"
    using polling_unbounded [where k = 2 and env = halting and name = "''test-vm''"
        and w = "[]" and m = 0 and r = Returned]
    by (simp add: halting_def scripted_def vm_demo_def stop_verdict_def nq_def)
  moreover have "fst (start_wait (steady ''SHUTOFF'' 4) ''test-vm'' 9 []) = Polling"
    using polling_unbounded [where env = "steady ''SHUTOFF'' 4" and name = "''test-vm''"
        and w = "[]" and fuel = 9]
    by (simp add: steady_def scripted_def vm_demo_def start_verdict_def)
  ultimately show ?thesis by simp
qed

text \<open>
  C9 as stated fails: the second answer would satisfy create's status wait, but the
  first query fails and the wait ends there by raising, it does not return; and stop's
  wait, whose condition no answer satisfies, ends by raising on the sentinel at its third
  query instead of running on.
\<close>

theorem polling_unbounded_counterexample:
  "servers_list hiccup 1 ''test-vm'' = Inr [vm_demo ''ACTIVE'' 1] \<and>
   status_wait hiccup ''test-vm'' 5 [] [] =
     (Raised (OtherError ''timeout''), [ServersList ''test-vm'']) \<and>
   stop_wait vanishing ''test-vm'' 5 [] =
     (Raised TypeError,
      [ServersList ''test-vm'', Sleep 1, ServersList ''test-vm'', Sleep 1, ServersList ''test-vm''])"
  by code_simp

section \<open>Sleeping between queries\<close>

lemma stop_wait_separated:
  "\<exists>es. snd (stop_wait env name fuel w) = w @ es \<and> separated 1 False es"
proof (induction fuel arbitrary: w)
  case 0
  show ?case by simp
next
  case (Suc n)
  show ?case
  proof (cases "vm_listed env name (nq w)")
    case False
    from stop_wait_unlisted [OF this, of n] show ?thesis by auto
  next
    case True
    then obtain srv rest where l: "servers_list env (nq w) name = Inr (srv # rest)"
      by (rule vm_listedE)
    from Suc.IH [of "w @ [ServersList name, Sleep 1]"] obtain es where
      "snd (stop_wait env name n (w @ [ServersList name, Sleep 1])) =
         (w @ [ServersList name, Sleep 1]) @ es" "separated 1 False es" by blast
    then have "snd (stop_wait env name n (w @ [ServersList name, Sleep 1])) =
         w @ (ServersList name # Sleep 1 # es) \<and>
       separated 1 False (ServersList name # Sleep 1 # es)" by simp
    then show ?thesis using l by (auto simp: stop_wait_listed)
  qed
qed

lemma start_wait_separated:
  "\<exists>es. snd (start_wait env name fuel w) = w @ es \<and> separated 1 False es"
proof (induction fuel arbitrary: w)
  case 0
  show ?case by simp
next
  case (Suc n)
  show ?case
  proof (cases "vm_listed env name (nq w)")
    case False
    from start_wait_unlisted [OF this, of n] show ?thesis by auto
  next
    case True
    then obtain srv rest where l: "servers_list env (nq w) name = Inr (srv # rest)"
      by (rule vm_listedE)
    from Suc.IH [of "w @ [ServersList name, Sleep 1]"] obtain es where
      "snd (start_wait env name n (w @ [ServersList name, Sleep 1])) =
         (w @ [ServersList name, Sleep 1]) @ es" "separated 1 False es" by blast
    then have "snd (start_wait env name n (w @ [ServersList name, Sleep 1])) =
         w @ (ServersList name # Sleep 1 # es) \<and>
       separated 1 False (ServersList name # Sleep 1 # es)" by simp
    then show ?thesis using l by (auto simp: start_wait_listed)
  qed
qed

lemma status_wait_separated:
  "\<forall>j. vm_listed env name (nq w + j) \<Longrightarrow>
   \<exists>es. snd (status_wait env name fuel st w) = w @ es \<and> separated 1 False es"
proof (induction fuel arbitrary: st w)
  case 0
  show ?case by simp
next
  case (Suc n)
  show ?case
  proof (cases "st = ''ACTIVE''")
    case True
    then show ?thesis by simp
  next
    case False
    from Suc.prems [rule_format, of 0] obtain srv rest
      where l: "servers_list env (nq w) name = Inr (srv # rest)"
      by (auto elim: vm_listedE)
    have "\<forall>j. vm_listed env name (nq (w @ [ServersList name, Sleep 1]) + j)"
      using Suc.prems [rule_format, of "Suc j" for j] by simp
    from Suc.IH [OF this, of "server_status srv"] obtain es where
      "snd (status_wait env name n (server_status srv) (w @ [ServersList name, Sleep 1])) =
         (w @ [ServersList name, Sleep 1]) @ es" "separated 1 False es" by blast
    then have "snd (status_wait env name n (server_status srv) (w @ [ServersList name, Sleep 1])) =
         w @ (ServersList name # Sleep 1 # es) \<and>
       separated 1 False (ServersList name # Sleep 1 # es)" by simp
    then show ?thesis using l False by (auto simp: status_wait_listed)
  qed
qed

text \<open>
  C4, as amended: in the power-state waits of stop and of start, consecutive status
  queries are separated by a sleep of 1 second, and so are those of create's status wait
  as long as every query lists the VM; create's reachability wait, when it returns, ends
  with the successful probe followed by a sleep of 2 seconds; delete's absence wait does
  not sleep.
\<close>

theorem polling_cadence:
  "separated 1 False (drop (length w) (snd (stop_wait env name fuel w))) \<and>
   separated 1 False (drop (length w) (snd (start_wait env name fuel w))) \<and>
   ((\<forall>j. vm_listed env name (nq w + j)) \<longrightarrow>
      separated 1 False (drop (length w) (snd (status_wait env name fuel st w)))) \<and>
   (fst (ping_wait env name fuel False w) = Returned \<longrightarrow>
      last (snd (ping_wait env name fuel False w)) = Sleep 2 \<and>
      is_ping (last (butlast (snd (ping_wait env name fuel False w))))) \<and>
   filter is_sleep (drop (length w) (snd (delete_wait env name fuel w))) = []"
proof (intro conjI impI)
  from stop_wait_separated [of env name fuel w]
  show "separated 1 False (drop (length w) (snd (stop_wait env name fuel w)))" by auto
  from start_wait_separated [of env name fuel w]
  show "separated 1 False (drop (length w) (snd (start_wait env name fuel w)))" by auto
next
  assume "\<forall>j. vm_listed env name (nq w + j)"
  from status_wait_separated [OF this, of fuel st]
  show "separated 1 False (drop (length w) (snd (status_wait env name fuel st w)))" by auto
next
  assume r: "fst (ping_wait env name fuel False w) = Returned"
  from ping_wait_returned [OF r] obtain mid and srv :: server where
    e: "snd (ping_wait env name fuel False w) =
      w @ mid @ [ServersList name, Ping (snd (first_address (server_addresses srv))), Sleep 2]"
    by blast
  show "last (snd (ping_wait env name fuel False w)) = Sleep 2" by (simp add: e)
  have "butlast (snd (ping_wait env name fuel False w)) =
      (w @ mid @ [ServersList name]) @ [Ping (snd (first_address (server_addresses srv)))]"
    by (simp add: e butlast_append)
  then show "is_ping (last (butlast (snd (ping_wait env name fuel False w))))"
    by (simp only: last_snoc is_ping.simps)
next
  from delete_wait_only_queries [of env name fuel w]
  show "filter is_sleep (drop (length w) (snd (delete_wait env name fuel w))) = []" by auto
qed

theorem polling_cadence_witness:
  "separated 1 False (snd (stop_wait halting ''test-vm'' 5 [])) \<and>
   separated 1 False (snd (start_wait booting ''test-vm'' 5 [])) \<and>
   separated 1 False (snd (status_wait booting ''test-vm'' 5 [] [])) \<and>
   last (snd (ping_wait booting ''test-vm'' 5 False [])) = Sleep 2 \<and>
   filter is_sleep (snd (delete_wait vanishing ''test-vm'' 5 [])) = []"
proof -
  have l: "\<forall>j. vm_listed booting ''test-vm'' (nq [] + j)"
    by (simp add: booting_def scripted_def vm_listed_def)
  have r: "fst (ping_wait booting ''test-vm'' 5 False []) = Returned"
    by code_simp
  from polling_cadence [where w = "[]" and env = halting and name = "''test-vm''" and fuel = 5]
    polling_cadence [where w = "[]" and env = booting and name = "''test-vm''" and fuel = 5
      and st = "[]"]
    polling_cadence [where w = "[]" and env = vanishing and name = "''test-vm''" and fuel = 5]
    l r
  show ?thesis by simp
qed

text \<open>
  C4 as stated fails: the absence wait of delete issues three status queries in a row,
  with no sleep between them.
\<close>

theorem polling_cadence_counterexample:
  "delete_wait vanishing ''test-vm'' 5 [] =
     (Returned, [ServersList ''test-vm'', ServersList ''test-vm'', ServersList ''test-vm'']) \<and>
   \<not> separated 1 False (snd (delete_wait vanishing ''test-vm'' 5 []))"
  by code_simp

section \<open>Failures while polling\<close>

text \<open>
  C5, as amended: create's reachability wait never raises: a failure of the status query
  or of the probe makes it retry. Create's status wait retries on a TypeError and on the
  absent sentinel only; any other failure of the status query ends it, raised to the
  caller.
\<close>

theorem polling_swallows:
  "fst (ping_wait env name fuel b w) \<noteq> Raised e \<and>
   (servers_list env (nq w) name = Inl e \<longrightarrow>
      ping_wait env name (Suc n) False w = ping_wait env name n False (w @ [ServersList name])) \<and>
   (servers_list env (nq w) name = Inr (srv # rest) \<and>
    ping_exit env (np w) (snd (first_address (server_addresses srv))) \<noteq> Inr 0 \<longrightarrow>
      ping_wait env name (Suc n) False w =
        ping_wait env name n False
          (w @ [ServersList name, Ping (snd (first_address (server_addresses srv)))])) \<and>
   (st \<noteq> ''ACTIVE'' \<and>
    (servers_list env (nq w) name = Inl TypeError \<or> servers_list env (nq w) name = Inr []) \<longrightarrow>
      status_wait env name (Suc n) st w = status_wait env name n st (w @ [ServersList name])) \<and>
   (st \<noteq> ''ACTIVE'' \<and> servers_list env (nq w) name = Inl e \<and> e \<noteq> TypeError \<longrightarrow>
      status_wait env name (Suc n) st w = (Raised e, w @ [ServersList name]))"
proof (intro conjI impI)
  show "fst (ping_wait env name fuel b w) \<noteq> Raised e" by (rule ping_wait_never_raises)
next
  assume "servers_list env (nq w) name = Inl e"
  then have "\<not> vm_listed env name (nq w)" by (simp add: vm_listed_def)
  then show "ping_wait env name (Suc n) False w =
      ping_wait env name n False (w @ [ServersList name])"
    by (rule ping_wait_unlisted)
next
  assume "servers_list env (nq w) name = Inr (srv # rest) \<and>
    ping_exit env (np w) (snd (first_address (server_addresses srv))) \<noteq> Inr 0"
  then show "ping_wait env name (Suc n) False w =
        ping_wait env name n False
          (w @ [ServersList name, Ping (snd (first_address (server_addresses srv)))])"
    by (simp add: ping_wait_listed)
next
  assume "st \<noteq> ''ACTIVE'' \<and>
    (servers_list env (nq w) name = Inl TypeError \<or> servers_list env (nq w) name = Inr [])"
  then show "status_wait env name (Suc n) st w =
      status_wait env name n st (w @ [ServersList name])"
    by (auto simp: status_wait_failed status_wait_absent)
next
  assume "st \<noteq> ''ACTIVE'' \<and> servers_list env (nq w) name = Inl e \<and> e \<noteq> TypeError"
  then show "status_wait env name (Suc n) st w = (Raised e, w @ [ServersList name])"
    by (simp add: status_wait_failed)
qed

theorem polling_swallows_witness:
  "fst (ping_wait refusing ''test-vm'' 4 False []) = Polling \<and>
   ping_wait refusing ''test-vm'' (Suc 3) False [] =
     ping_wait refusing ''test-vm'' 3 False [ServersList ''test-vm''] \<and>
   ping_wait booting ''test-vm'' (Suc 3) False [] =
     ping_wait booting ''test-vm'' 3 False [ServersList ''test-vm'', Ping ''10.0.0.5''] \<and>
   status_wait no_image ''test-vm'' (Suc 3) [] [] =
     status_wait no_image ''test-vm'' 3 [] [ServersList ''test-vm''] \<and>
   status_wait refusing ''test-vm'' (Suc 3) [] [] =
     (Raised (OtherError ''connection refused''), [ServersList ''test-vm''])"
proof -
  have p: "fst (ping_wait refusing ''test-vm'' 4 False []) = Polling" by code_simp
  from polling_swallows [where env = refusing and name = "''test-vm''" and fuel = 4 and b = False
      and w = "[]" and e = "OtherError ''connection refused''" and n = 3 and st = "[]"]
    polling_swallows [where env = booting and name = "''test-vm''" and w = "[]" and n = 3
      and srv = "vm_demo ''BUILD'' 0" and rest = "[]"]
    polling_swallows [where env = no_image and name = "''test-vm''" and w = "[]" and n = 3
      and st = "[]"] p
  show ?thesis
    by (simp add: refusing_def booting_def no_image_def scripted_def vm_demo_def nq_def np_def
        first_address_def)
qed

text \<open>
  C5 as stated fails: a status query that fails with an error other than TypeError during
  create's status wait ends \<open>vm_create\<close> with that error, after one query.
\<close>

theorem polling_swallows_counterexample:
  "vm_create refusing 3 ''test-vm'' ''cirros'' ''key'' ''small'' ''private'' [] =
     (Raised (OtherError ''connection refused''),
      [NetworksFind ''private'', ImagesFind ''cirros'', FlavorsFind ''small'',
       ServersCreate ''test-vm'' ''id-0'' ''id-0'' ''id-0'' ''key'', ServersList ''test-vm''])"
  by code_simp

end
